theory Spec2Isabelle
  imports Main
begin

section \<open>Strings\<close>

text \<open>
  Python strings are modelled as \<^typ>\<open>string\<close>; a \<^typ>\<open>char\<close> stands for a code point
  below 256. \<open>str.lower\<close> on these code points maps \<open>A..Z\<close> and the upper-case letters of
  Latin-1 (192 to 222, without the multiplication sign 215) to the letter 32 places on.
\<close>

definition lower_char :: "char \<Rightarrow> char" where
  "lower_char c =
     (let n = (of_char c :: nat)
      in if (65 \<le> n \<and> n \<le> 90) \<or> (192 \<le> n \<and> n \<le> 222 \<and> n \<noteq> 215)
         then char_of (n + 32) else c)"

definition lower :: "string \<Rightarrow> string" where
  "lower s = map lower_char s"

text \<open>\<open>s.startswith(p)\<close>.\<close>

definition startswith :: "string \<Rightarrow> string \<Rightarrow> bool" where
  "startswith s p = (take (length p) s = p)"

text \<open>\<open>s.rstrip('/')\<close>.\<close>

definition rstrip_slash :: "string \<Rightarrow> string" where
  "rstrip_slash s = rev (dropWhile (\<lambda>c. c = CHR ''/'') (rev s))"

text \<open>
  \<open>s.partition(c)\<close> gives the text before the first \<open>c\<close>, whether \<open>c\<close> occurs, and the
  text after it; \<open>s.rpartition(c)[2]\<close> is the text after the last \<open>c\<close>, and all of \<open>s\<close>
  when \<open>c\<close> does not occur.
\<close>

definition partition_before :: "char \<Rightarrow> string \<Rightarrow> string" where
  "partition_before c s = takeWhile (\<lambda>x. x \<noteq> c) s"

definition partition_after :: "char \<Rightarrow> string \<Rightarrow> string" where
  "partition_after c s = drop 1 (dropWhile (\<lambda>x. x \<noteq> c) s)"

definition rpartition_after :: "char \<Rightarrow> string \<Rightarrow> string" where
  "rpartition_after c s = rev (takeWhile (\<lambda>x. x \<noteq> c) (rev s))"

datatype py_error =
    ValueError
  | AttributeError
  | TypeError
  | OverflowError
  | RequestException

section \<open>The URL parser of the standard library\<close>

text \<open>
  \<open>urllib.parse.urlparse(url).hostname\<close>, following \<open>urlsplit\<close>, \<open>_splitnetloc\<close>,
  \<open>_hostinfo\<close> and \<open>hostname\<close> of CPython 3.11. Only the network location is computed:
  the path, query, fragment and parameters do not reach the host name.

  The validation of a bracketed host (\<open>_check_bracketed_host\<close>: a regular expression
  for IPvFuture and the \<open>ipaddress\<close> module otherwise) is the parameter \<open>chk\<close>.
  \<open>_checknetloc\<close> raises only when the NFKC form of a non-ASCII network location
  has one of \<open>/ ? # @ :\<close>, which no code point below 256 produces.
\<close>

definition is_ascii_alpha :: "char \<Rightarrow> bool" where
  "is_ascii_alpha c =
     (let n = (of_char c :: nat) in (65 \<le> n \<and> n \<le> 90) \<or> (97 \<le> n \<and> n \<le> 122))"

definition is_scheme_char :: "char \<Rightarrow> bool" where
  "is_scheme_char c =
     (let n = (of_char c :: nat)
      in is_ascii_alpha c \<or> (48 \<le> n \<and> n \<le> 57) \<or> c = CHR ''+'' \<or> c = CHR ''-'' \<or> c = CHR ''.'')"

text \<open>The text left after the scheme, if \<open>url\<close> has one (\<open>url[i+1:]\<close>), or \<open>url\<close>.\<close>

definition strip_scheme :: "string \<Rightarrow> string" where
  "strip_scheme url =
     (let pre = takeWhile (\<lambda>c. c \<noteq> CHR '':'') url
      in if CHR '':'' \<in> set url \<and> pre \<noteq> [] \<and> is_ascii_alpha (hd url) \<and> list_all is_scheme_char pre
         then drop (length pre + 1) url else url)"

definition splitnetloc :: "string \<Rightarrow> string" where
  "splitnetloc url =
     takeWhile (\<lambda>c. c \<noteq> CHR ''/'' \<and> c \<noteq> CHR ''?'' \<and> c \<noteq> CHR ''#'') (drop 2 url)"

definition urlsplit_netloc :: "(string \<Rightarrow> bool) \<Rightarrow> string \<Rightarrow> py_error + string" where
  "urlsplit_netloc chk url0 =
     (let url1 = dropWhile (\<lambda>c. (of_char c :: nat) \<le> 32) url0;
          url2 = filter (\<lambda>c. c \<noteq> CHR 0x09 \<and> c \<noteq> CHR 0x0D \<and> c \<noteq> CHR 0x0A) url1;
          url = strip_scheme url2
      in if take 2 url = ''//'' then
           (let netloc = splitnetloc url;
                lb = CHR ''['' \<in> set netloc;
                rb = CHR '']'' \<in> set netloc
            in if (lb \<and> \<not> rb) \<or> (rb \<and> \<not> lb) then Inl ValueError
               else if lb \<and> rb \<and>
                       \<not> chk (partition_before CHR '']'' (partition_after CHR ''['' netloc))
               then Inl ValueError
               else Inr netloc)
         else Inr [])"

text \<open>\<open>_hostinfo[0]\<close> and the property \<open>hostname\<close>, on a network location.\<close>

definition hostinfo_host :: "string \<Rightarrow> string" where
  "hostinfo_host netloc =
     (let hostinfo = rpartition_after CHR ''@'' netloc
      in if CHR ''['' \<in> set hostinfo
         then partition_before CHR '']'' (partition_after CHR ''['' hostinfo)
         else partition_before CHR '':'' hostinfo)"

definition hostname :: "string \<Rightarrow> string option" where
  "hostname netloc =
     (let h = hostinfo_host netloc
      in if h = [] then None
         else Some (lower (partition_before CHR ''%'' h) @ dropWhile (\<lambda>c. c \<noteq> CHR ''%'') h))"

definition urlparse_hostname :: "(string \<Rightarrow> bool) \<Rightarrow> string \<Rightarrow> py_error + string option" where
  "urlparse_hostname chk url =
     (case urlsplit_netloc chk url of Inl e \<Rightarrow> Inl e | Inr netloc \<Rightarrow> Inr (hostname netloc))"

text \<open>
  Plain hosts and ports: a host is a non-empty text without the characters that end or
  structure a network location (\<open>/ ? # [ ] @ : %\<close>) and without the tab and line
  characters the parser removes; a port is such a text where \<open>:\<close> and \<open>%\<close> may occur.
\<close>

definition netloc_char :: "char \<Rightarrow> bool" where
  "netloc_char c = (c \<notin> set ''/?#[]'' \<and> c \<noteq> CHR 0x09 \<and> c \<noteq> CHR 0x0A \<and> c \<noteq> CHR 0x0D)"

definition host_text :: "string \<Rightarrow> bool" where
  "host_text h = (h \<noteq> [] \<and> list_all (\<lambda>c. netloc_char c \<and> c \<notin> set ''@:%'') h)"

definition port_text :: "string \<Rightarrow> bool" where
  "port_text p = list_all (\<lambda>c. netloc_char c \<and> c \<noteq> CHR ''@'') p"

section \<open>GitHubAPIHandler: base URL and API roots\<close>

definition normalize_url :: "string \<Rightarrow> string" where
  "normalize_url url =
     rstrip_slash (if \<not> (startswith url ''http://'' \<or> startswith url ''https://'')
                   then ''https://'' @ url else url)"

text \<open>
  \<open>parsed_url.hostname.lower()\<close> raises AttributeError when the parsed URL has no host
  name (\<open>hostname\<close> is \<open>None\<close>).
\<close>

definition determine_api_url :: "(string \<Rightarrow> bool) \<Rightarrow> string \<Rightarrow> py_error + string" where
  "determine_api_url chk base_url =
     (case urlparse_hostname chk base_url of
        Inl e \<Rightarrow> Inl e
      | Inr None \<Rightarrow> Inl AttributeError
      | Inr (Some h) \<Rightarrow>
          if lower h = ''github.com'' then Inr ''https://api.github.com''
          else Inr (base_url @ ''/api/v3''))"

definition determine_graphql_url :: "(string \<Rightarrow> bool) \<Rightarrow> string \<Rightarrow> py_error + string" where
  "determine_graphql_url chk base_url =
     (case urlparse_hostname chk base_url of
        Inl e \<Rightarrow> Inl e
      | Inr None \<Rightarrow> Inl AttributeError
      | Inr (Some h) \<Rightarrow>
          if lower h = ''github.com'' then Inr ''https://api.github.com/graphql''
          else Inr (base_url @ ''/api/graphql''))"

section \<open>JSON values and HTTP replies\<close>

text \<open>
  A decoded JSON document. An object is the list of its members as Python's \<open>dict\<close>
  holds them (one entry for each key). Numbers are the integers.
\<close>

datatype json =
    JNull
  | JBool bool
  | JNum int
  | JStr string
  | JArr "json list"
  | JObj "(string \<times> json) list"

text \<open>Python's truth value of a decoded document (\<open>if not x\<close>).\<close>

fun truthy :: "json \<Rightarrow> bool" where
  "truthy JNull = False"
| "truthy (JBool b) = b"
| "truthy (JNum n) = (n \<noteq> 0)"
| "truthy (JStr s) = (s \<noteq> [])"
| "truthy (JArr xs) = (xs \<noteq> [])"
| "truthy (JObj kvs) = (kvs \<noteq> [])"

text \<open>
  What \<open>requests\<close> gives for one call: it raises a \<open>RequestException\<close> (no connection,
  timeout, ...), or returns a response with a status code and a body; \<open>body\<close> is the
  decoded document, \<open>None\<close> when the body is not JSON (\<open>response.json()\<close> then raises
  \<open>requests.exceptions.JSONDecodeError\<close>, a \<open>RequestException\<close>).
\<close>

datatype http_reply =
    TransportError
  | Reply (status_code: nat) (body: "json option")

record http_request =
  http_method :: string
  url :: string
  req_headers :: "(string \<times> string) list"
  json_payload :: "json option"

text \<open>\<open>response.raise_for_status()\<close> raises \<open>HTTPError\<close> on a 4xx or 5xx status.\<close>

definition raise_for_status :: "nat \<Rightarrow> bool" where
  "raise_for_status st = (400 \<le> st \<and> st < 600)"

section \<open>GitHubAPIHandler: construction and requests\<close>

record handler =
  base_url :: string
  token :: string
  api_url :: string
  graphql_url :: string
  headers :: "(string \<times> string) list"
  graphql_headers :: "(string \<times> string) list"
  username :: json

definition rest_headers :: "string \<Rightarrow> (string \<times> string) list" where
  "rest_headers tok =
     [(''Authorization'', ''Bearer '' @ tok), (''Accept'', ''application/vnd.github.v3+json'')]"

definition gql_headers :: "string \<Rightarrow> (string \<times> string) list" where
  "gql_headers tok =
     [(''Authorization'', ''Bearer '' @ tok), (''Accept'', ''application/vnd.github+json'')]"

definition user_request :: "string \<Rightarrow> (string \<times> string) list \<Rightarrow> http_request" where
  "user_request api hs =
     \<lparr>http_method = ''GET'', url = api @ ''/user'', req_headers = hs, json_payload = None\<rparr>"

text \<open>
  \<open>_get_authenticated_user\<close>, on the reply to its one request. A failure of the
  call, of \<open>raise_for_status\<close> or of \<open>json()\<close> is caught and raised again as a
  \<open>RequestException\<close>; \<open>user_data.get\<close> raises AttributeError on a document that is
  not an object; a missing or false \<open>login\<close> raises ValueError.
\<close>

definition get_authenticated_user :: "http_reply \<Rightarrow> py_error + json" where
  "get_authenticated_user reply =
     (case reply of
        TransportError \<Rightarrow> Inl RequestException
      | Reply st b \<Rightarrow>
          if raise_for_status st then Inl RequestException
          else (case b of
             None \<Rightarrow> Inl RequestException
           | Some (JObj kvs) \<Rightarrow>
               (case map_of kvs ''login'' of
                  None \<Rightarrow> Inl ValueError
                | Some v \<Rightarrow> if \<not> truthy v then Inl ValueError else Inr v)
           | Some _ \<Rightarrow> Inl AttributeError))"

text \<open>
  \<open>__init__\<close>. The remote side is the function \<open>net\<close> from a request to its reply;
  the result is paired with the requests issued, in order.
\<close>

definition init ::
  "(string \<Rightarrow> bool) \<Rightarrow> (http_request \<Rightarrow> http_reply) \<Rightarrow> string \<Rightarrow> string
     \<Rightarrow> (py_error + handler) \<times> http_request list" where
  "init chk net base tok =
     (let b = normalize_url base
      in case determine_api_url chk b of
           Inl e \<Rightarrow> (Inl e, [])
         | Inr api \<Rightarrow>
             (case determine_graphql_url chk b of
                Inl e \<Rightarrow> (Inl e, [])
              | Inr gql \<Rightarrow>
                  (let req = user_request api (rest_headers tok)
                   in case get_authenticated_user (net req) of
                        Inl e \<Rightarrow> (Inl e, [req])
                      | Inr u \<Rightarrow>
                          (Inr \<lparr>base_url = b, token = tok, api_url = api, graphql_url = gql,
                                headers = rest_headers tok, graphql_headers = gql_headers tok,
                                username = u\<rparr>,
                           [req]))))"

text \<open>
  \<open>make_graphql_request\<close>, on the reply to its POST. \<open>'errors' in result\<close> is key
  membership on an object, element membership on an array, a substring test on a string
  and a TypeError on anything else; \<open>result.get\<close> exists on an object only.
\<close>

definition graphql_request :: "handler \<Rightarrow> string \<Rightarrow> (string \<times> json) list option \<Rightarrow> http_request" where
  "graphql_request h query variables =
     \<lparr>http_method = ''POST'', url = graphql_url h, req_headers = graphql_headers h,
      json_payload = Some (JObj ((''query'', JStr query) #
        (case variables of None \<Rightarrow> [] | Some vs \<Rightarrow> if vs = [] then [] else [(''variables'', JObj vs)])))\<rparr>"

fun is_infix :: "string \<Rightarrow> string \<Rightarrow> bool" where
  "is_infix p [] = (p = [])"
| "is_infix p (x # xs) = (take (length p) (x # xs) = p \<or> is_infix p xs)"

definition errors_in :: "json \<Rightarrow> py_error + bool" where
  "errors_in result =
     (case result of
        JObj kvs \<Rightarrow> Inr (''errors'' \<in> set (map fst kvs))
      | JArr xs \<Rightarrow> Inr (JStr ''errors'' \<in> set xs)
      | JStr s \<Rightarrow> Inr (is_infix ''errors'' s)
      | _ \<Rightarrow> Inl TypeError)"

definition make_graphql_request :: "http_reply \<Rightarrow> py_error + json" where
  "make_graphql_request reply =
     (case reply of
        TransportError \<Rightarrow> Inl RequestException
      | Reply st b \<Rightarrow>
          if raise_for_status st then Inl RequestException
          else (case b of
             None \<Rightarrow> Inl RequestException
           | Some result \<Rightarrow>
               (case errors_in result of
                  Inl e \<Rightarrow> Inl e
                | Inr True \<Rightarrow> Inl ValueError
                | Inr False \<Rightarrow>
                    (case result of
                       JObj kvs \<Rightarrow>
                         (case map_of kvs ''data'' of None \<Rightarrow> Inr (JObj []) | Some d \<Rightarrow> Inr d)
                     | _ \<Rightarrow> Inl AttributeError))))"

text \<open>
  The conditions the specification names: an envelope that is an object holding a
  non-empty list under \<open>errors\<close>, and an identity document that is an object without a
  usable \<open>login\<close>.
\<close>

definition has_nonempty_errors_list :: "json \<Rightarrow> bool" where
  "has_nonempty_errors_list result =
     (case result of
        JObj kvs \<Rightarrow> (case map_of kvs ''errors'' of Some (JArr (x # xs)) \<Rightarrow> True | _ \<Rightarrow> False)
      | _ \<Rightarrow> False)"

definition lacks_login :: "(string \<times> json) list \<Rightarrow> bool" where
  "lacks_login kvs = (case map_of kvs ''login'' of None \<Rightarrow> True | Some v \<Rightarrow> \<not> truthy v)"

section \<open>Slack: fetch_all_users\<close>

text \<open>
  One answer of \<open>client.users_list\<close>: the list under \<open>members\<close> (\<open>None\<close> when the
  key is missing: \<open>resp["members"]\<close> is then \<open>None\<close> and \<open>len\<close> raises TypeError) and
  \<open>response_metadata\<close> (\<open>None\<close> when the key is missing, \<open>Some None\<close> when it has no
  \<open>next_cursor\<close>, \<open>Some (Some c)\<close> when \<open>next_cursor\<close> is the text \<open>c\<close>).
\<close>

record 'm slack_response =
  members :: "'m list option"
  response_metadata :: "string option option"

text \<open>
  The \<open>Retry-After\<close> header of a failed call, as \<open>int\<close> reads it: missing, a text that
  \<open>int\<close> reads as a number, or a text on which \<open>int\<close> raises ValueError.
\<close>

datatype retry_after = NoRetryAfter | RetryAfter int | RetryAfterUnreadable

record slack_api_error =
  error :: "string option"
  retry_after_header :: retry_after

datatype 'm api_result =
    Returns "'m slack_response"
  | RaisesSlackApiError slack_api_error
  | RaisesException

text \<open>
  The workspace behind the client is a state machine: a call with a limit and a cursor
  gives an answer and the next state.
\<close>

type_synonym ('s, 'm) web_client = "'s \<Rightarrow> int \<Rightarrow> string option \<Rightarrow> 'm api_result \<times> 's"

text \<open>What the generator does, in order, and how it ends.\<close>

datatype 'm event =
    Request int "string option"
  | Yield 'm
  | Sleep int

datatype fetch_exn =
    SlackApiError slack_api_error
  | UnexpectedException
  | PyError py_error

datatype ending = Returned | Raised fetch_exn

text \<open>\<open>resp.get("response_metadata", {}).get("next_cursor")\<close> and \<open>not cursor\<close>.\<close>

definition next_cursor :: "'m slack_response \<Rightarrow> string option" where
  "next_cursor resp = (case response_metadata resp of None \<Rightarrow> None | Some m \<Rightarrow> m)"

definition falsy :: "string option \<Rightarrow> bool" where
  "falsy c = (case c of None \<Rightarrow> True | Some s \<Rightarrow> s = [])"

text \<open>\<open>int(e.response.headers.get("Retry-After", 1))\<close>.\<close>

definition retry_delay :: "slack_api_error \<Rightarrow> py_error + int" where
  "retry_delay e =
     (case retry_after_header e of
        NoRetryAfter \<Rightarrow> Inr 1
      | RetryAfter d \<Rightarrow> Inr d
      | RetryAfterUnreadable \<Rightarrow> Inl ValueError)"

text \<open>
  The loop of \<open>fetch_all_users\<close>, drained to its end. \<open>sleep\<close> is \<open>time.sleep\<close>:
  \<open>None\<close> when it returns, the exception when it raises (ValueError on a negative
  length, and an error of the platform on a length its clock cannot hold). The loop has no
  bound of its own: where it never ends, the value is \<open>None\<close>.
\<close>

partial_function (option) fetch_loop ::
  "(int \<Rightarrow> py_error option) \<Rightarrow> ('s, 'm) web_client \<Rightarrow> int \<Rightarrow> 's \<Rightarrow> string option
     \<Rightarrow> 'm event list \<Rightarrow> ('m event list \<times> ending) option" where
  "fetch_loop sleep client batch_size s cursor tr =
     (case client s batch_size cursor of
        (Returns resp, s') \<Rightarrow>
          (case members resp of
             None \<Rightarrow> Some (tr @ [Request batch_size cursor], Raised (PyError TypeError))
           | Some ms \<Rightarrow>
               if falsy (next_cursor resp)
               then Some (tr @ Request batch_size cursor # map Yield ms, Returned)
               else fetch_loop sleep client batch_size s' (next_cursor resp)
                      (tr @ Request batch_size cursor # map Yield ms))
      | (RaisesSlackApiError e, s') \<Rightarrow>
          if error e = Some ''ratelimited'' then
            (case retry_delay e of
               Inl x \<Rightarrow> Some (tr @ [Request batch_size cursor], Raised (PyError x))
             | Inr delay \<Rightarrow>
                 (case sleep delay of
                    Some x \<Rightarrow> Some (tr @ [Request batch_size cursor], Raised (PyError x))
                  | None \<Rightarrow>
                      fetch_loop sleep client batch_size s' cursor
                        (tr @ [Request batch_size cursor, Sleep delay])))
          else Some (tr @ [Request batch_size cursor], Raised (SlackApiError e))
      | (RaisesException, s') \<Rightarrow>
          Some (tr @ [Request batch_size cursor], Raised UnexpectedException))"

declare fetch_loop.simps [code]

definition fetch_all_users ::
  "(int \<Rightarrow> py_error option) \<Rightarrow> ('s, 'm) web_client \<Rightarrow> int \<Rightarrow> 's \<Rightarrow> ('m event list \<times> ending) option" where
  "fetch_all_users sleep client batch_size s = fetch_loop sleep client batch_size s None []"

text \<open>The records, the requests and the suspensions of a run, in order.\<close>

fun yields :: "'m event list \<Rightarrow> 'm list" where
  "yields [] = []"
| "yields (Yield m # tr) = m # yields tr"
| "yields (_ # tr) = yields tr"

fun requests :: "'m event list \<Rightarrow> string option list" where
  "requests [] = []"
| "requests (Request _ c # tr) = c # requests tr"
| "requests (_ # tr) = requests tr"

fun sleeps :: "'m event list \<Rightarrow> int list" where
  "sleeps [] = []"
| "sleeps (Sleep d # tr) = d # sleeps tr"
| "sleeps (_ # tr) = sleeps tr"

subsection \<open>A service of pages\<close>

text \<open>The answers of a workspace to a sequence of cursors, asked one after the other.\<close>

fun answers :: "('s, 'm) web_client \<Rightarrow> 's \<Rightarrow> int \<Rightarrow> string option list \<Rightarrow> 'm api_result list" where
  "answers client s b [] = []"
| "answers client s b (c # cs) = fst (client s b c) # answers client (snd (client s b c)) b cs"

text \<open>
  A simulated workspace that plays a script: each call takes the next answer, and a call
  after the last one fails.
\<close>

fun scripted :: "('m api_result list, 'm) web_client" where
  "scripted [] b c = (RaisesException, [])"
| "scripted (r # rs) b c = (r, rs)"

text \<open>A sleep that accepts every length that is not negative.\<close>

definition plain_sleep :: "int \<Rightarrow> py_error option" where
  "plain_sleep d = (if d < 0 then Some ValueError else None)"

definition the_members :: "'m slack_response \<Rightarrow> 'm list" where
  "the_members p = (case members p of None \<Rightarrow> [] | Some ms \<Rightarrow> ms)"

text \<open>
  The run expected over pages \<open>ps\<close>, starting with cursor \<open>c\<close>: one request for each
  page, then its records, the next request carrying the cursor the page gave.
\<close>

fun page_trace :: "int \<Rightarrow> string option \<Rightarrow> 'm slack_response list \<Rightarrow> 'm event list" where
  "page_trace b c [] = []"
| "page_trace b c (p # ps) =
     Request b c # map Yield (the_members p) @ page_trace b (next_cursor p) ps"

text \<open>
  Pages of a service: at least one page, each with its list of members, every page but
  the last carrying a next cursor, the last page carrying none.
\<close>

definition paged :: "'m slack_response list \<Rightarrow> bool" where
  "paged ps =
     (ps \<noteq> [] \<and> list_all (\<lambda>p. members p \<noteq> None) ps \<and>
      list_all (\<lambda>p. \<not> falsy (next_cursor p)) (butlast ps) \<and> falsy (next_cursor (last ps)))"

section \<open>Evaluation\<close>

lemmas url_defs =
  determine_api_url_def determine_graphql_url_def urlparse_hostname_def urlsplit_netloc_def
  strip_scheme_def splitnetloc_def hostname_def hostinfo_host_def rpartition_after_def
  partition_before_def partition_after_def lower_def lower_char_def is_ascii_alpha_def
  is_scheme_char_def normalize_url_def startswith_def rstrip_slash_def

section \<open>The parser on plain URLs\<close>

lemma filter_unsafe_id:
  "list_all netloc_char n \<Longrightarrow> filter (\<lambda>c. c \<noteq> CHR 0x09 \<and> c \<noteq> CHR 0x0D \<and> c \<noteq> CHR 0x0A) n = n"
  by (induction n) (auto simp: netloc_char_def)

lemma takeWhile_netloc_id:
  "list_all netloc_char n \<Longrightarrow> takeWhile (\<lambda>c. c \<noteq> CHR ''/'' \<and> c \<noteq> CHR ''?'' \<and> c \<noteq> CHR ''#'') n = n"
  by (induction n) (auto simp: netloc_char_def)

lemma no_brackets:
  "list_all netloc_char n \<Longrightarrow> CHR ''['' \<notin> set n \<and> CHR '']'' \<notin> set n"
  by (induction n) (auto simp: netloc_char_def)

lemma urlsplit_netloc_https:
  assumes "list_all netloc_char n"
  shows "urlsplit_netloc chk (''https://'' @ n) = Inr n"
  using assms no_brackets [OF assms]
  by (simp add: urlsplit_netloc_def strip_scheme_def splitnetloc_def is_ascii_alpha_def
      is_scheme_char_def filter_unsafe_id takeWhile_netloc_id Let_def)

lemma urlsplit_netloc_http:
  assumes "list_all netloc_char n"
  shows "urlsplit_netloc chk (''http://'' @ n) = Inr n"
  using assms no_brackets [OF assms]
  by (simp add: urlsplit_netloc_def strip_scheme_def splitnetloc_def is_ascii_alpha_def
      is_scheme_char_def filter_unsafe_id takeWhile_netloc_id Let_def)

lemma takeWhile_neq_id: "c \<notin> set s \<Longrightarrow> takeWhile (\<lambda>x. x \<noteq> c) s = s"
  by (induction s) auto

lemma dropWhile_neq_nil: "c \<notin> set s \<Longrightarrow> dropWhile (\<lambda>x. x \<noteq> c) s = []"
  by (induction s) auto

lemma takeWhile_neq_append:
  "c \<notin> set s \<Longrightarrow> takeWhile (\<lambda>x. x \<noteq> c) (s @ r) = s @ takeWhile (\<lambda>x. x \<noteq> c) r"
  by (induction s) auto

lemma rpartition_after_id: "c \<notin> set s \<Longrightarrow> rpartition_after c s = s"
  by (simp add: rpartition_after_def takeWhile_neq_id)

lemma host_text_chars:
  assumes "host_text h"
  shows "CHR ''@'' \<notin> set h" "CHR '':'' \<notin> set h" "CHR ''%'' \<notin> set h" "CHR ''['' \<notin> set h"
    "list_all netloc_char h" "h \<noteq> []"
  using assms by (auto simp: host_text_def list_all_iff netloc_char_def)

lemma port_text_chars:
  assumes "port_text p"
  shows "CHR ''@'' \<notin> set p" "CHR ''['' \<notin> set p" "list_all netloc_char p"
  using assms by (auto simp: port_text_def list_all_iff netloc_char_def)

lemma hostname_host:
  assumes "host_text h"
  shows "hostname h = Some (lower h)"
  using host_text_chars [OF assms]
  by (simp add: hostname_def hostinfo_host_def rpartition_after_id partition_before_def
      takeWhile_neq_id dropWhile_neq_nil)

lemma hostname_host_port:
  assumes "host_text h" and "port_text p"
  shows "hostname (h @ CHR '':'' # p) = Some (lower h)"
  using host_text_chars [OF assms(1)] port_text_chars [OF assms(2)]
  by (simp add: hostname_def hostinfo_host_def rpartition_after_id partition_before_def
      takeWhile_neq_id dropWhile_neq_nil takeWhile_neq_append)

lemma netloc_char_colon: "netloc_char CHR '':''"
  by (simp add: netloc_char_def)

lemma urlparse_hostname_host:
  assumes "host_text h"
  shows "urlparse_hostname chk (''https://'' @ h) = Inr (Some (lower h))"
    and "urlparse_hostname chk (''http://'' @ h) = Inr (Some (lower h))"
  using urlsplit_netloc_https [OF host_text_chars(5) [OF assms], of chk]
    urlsplit_netloc_http [OF host_text_chars(5) [OF assms], of chk]
    hostname_host [OF assms]
  by (simp_all add: urlparse_hostname_def)

lemma urlparse_hostname_host_port:
  assumes "host_text h" and "port_text p"
  shows "urlparse_hostname chk (''https://'' @ h @ CHR '':'' # p) = Inr (Some (lower h))"
    and "urlparse_hostname chk (''http://'' @ h @ CHR '':'' # p) = Inr (Some (lower h))"
proof -
  have n: "list_all netloc_char (h @ CHR '':'' # p)"
    using host_text_chars(5) [OF assms(1)] port_text_chars(3) [OF assms(2)]
    by (simp add: netloc_char_colon)
  show "urlparse_hostname chk (''https://'' @ h @ CHR '':'' # p) = Inr (Some (lower h))"
    using urlsplit_netloc_https [OF n, of chk] hostname_host_port [OF assms]
    by (simp add: urlparse_hostname_def)
  show "urlparse_hostname chk (''http://'' @ h @ CHR '':'' # p) = Inr (Some (lower h))"
    using urlsplit_netloc_http [OF n, of chk] hostname_host_port [OF assms]
    by (simp add: urlparse_hostname_def)
qed

lemma lower_char_idem: "lower_char (lower_char c) = lower_char c"
  by (simp add: lower_char_def Let_def)

lemma lower_idem: "lower (lower s) = lower s"
  by (simp add: lower_def lower_char_idem)

lemma lower_char_percent: "lower_char c = CHR ''%'' \<longleftrightarrow> c = CHR ''%''"
  by (auto simp add: lower_char_def Let_def char_of_eq_iff take_bit_eq_mod)

lemma percent_in_lower: "CHR ''%'' \<in> set s \<Longrightarrow> CHR ''%'' \<in> set (lower s)"
proof -
  assume "CHR ''%'' \<in> set s"
  then have "lower_char CHR ''%'' \<in> lower_char ` set s" by (rule imageI)
  moreover have "lower_char CHR ''%'' = CHR ''%''" by (simp add: lower_char_def)
  ultimately show ?thesis by (simp add: lower_def)
qed

text \<open>A parsed host name is lower case up to its zone, so lowering it again changes no comparison with \<open>github.com\<close>.\<close>

lemma hostname_github_iff:
  assumes "hostname netloc = Some h"
  shows "lower h = ''github.com'' \<longleftrightarrow> h = ''github.com''"
proof -
  obtain x where x: "x \<noteq> []"
    and h: "h = lower (takeWhile (\<lambda>c. c \<noteq> CHR ''%'') x) @ dropWhile (\<lambda>c. c \<noteq> CHR ''%'') x"
    using assms by (auto simp: hostname_def Let_def partition_before_def split: if_splits)
  show ?thesis
  proof (cases "CHR ''%'' \<in> set x")
    case False
    then have "h = lower x" by (simp add: h takeWhile_neq_id dropWhile_neq_nil)
    then show ?thesis by (simp add: lower_idem)
  next
    case True
    define d where "d = dropWhile (\<lambda>c. c \<noteq> CHR ''%'') x"
    from True have ne: "d \<noteq> []" by (simp add: d_def)
    then have "hd d \<in> set d" by (rule hd_in_set)
    moreover have "hd d = CHR ''%''"
      using hd_dropWhile [of "\<lambda>c. c \<noteq> CHR ''%''" x] ne unfolding d_def by blast
    ultimately have "CHR ''%'' \<in> set (dropWhile (\<lambda>c. c \<noteq> CHR ''%'') x)"
      unfolding d_def by simp
    then have p: "CHR ''%'' \<in> set h" unfolding h by simp
    then have "CHR ''%'' \<in> set (lower h)" by (simp add: percent_in_lower)
    with p show ?thesis by auto
  qed
qed

section \<open>Normalisation\<close>

lemma rstrip_slash_idem: "rstrip_slash (rstrip_slash s) = rstrip_slash s"
  by (simp add: rstrip_slash_def)

lemma rstrip_slash_no_trailing: "rstrip_slash s = [] \<or> last (rstrip_slash s) \<noteq> CHR ''/''"
proof (cases "dropWhile (\<lambda>c. c = CHR ''/'') (rev s)")
  case Nil
  then show ?thesis by (simp add: rstrip_slash_def)
next
  case (Cons a as)
  then have "a \<noteq> CHR ''/''"
    using hd_dropWhile [of "\<lambda>c. c = CHR ''/''" "rev s"] by auto
  with Cons show ?thesis by (simp add: rstrip_slash_def)
qed

text \<open>
  Normalisation is idempotent wherever its result still begins with a scheme, that is
  wherever stripping the slashes has not reached into the scheme it ensured.
\<close>

lemma normalize_url_idem_if_scheme:
  assumes "startswith (normalize_url x) ''http://'' \<or> startswith (normalize_url x) ''https://''"
  shows "normalize_url (normalize_url x) = normalize_url x"
proof -
  have "normalize_url (normalize_url x) = rstrip_slash (normalize_url x)"
    using assms unfolding normalize_url_def [of "normalize_url x"] by simp
  also have "\<dots> = normalize_url x"
    by (simp add: normalize_url_def rstrip_slash_idem)
  finally show ?thesis .
qed

text \<open>
  C7. Normalisation is idempotent on every input. The code breaks this on the empty
  host: the scheme is prepended, stripping the trailing slashes then removes the two
  slashes of the scheme itself and leaves \<open>https:\<close>, which no longer begins with a scheme,
  so a second normalisation prepends the scheme again.
\<close>

theorem normalize_url_empty_not_idempotent:
  "normalize_url [] = ''https:'' \<and>
   normalize_url (normalize_url []) = ''https://https:'' \<and>
   normalize_url (normalize_url []) \<noteq> normalize_url []"
  by (simp add: normalize_url_def startswith_def rstrip_slash_def)

section \<open>Endpoint resolution\<close>

text \<open>
  C9. Endpoint resolution is not total: the empty host normalises to \<open>https:\<close>, a URL
  without a host name, on which the determination of the REST root raises
  AttributeError; the constructor fails there, and no request has been issued.
\<close>

theorem resolution_raises_on_empty_host:
  "normalize_url [] = ''https:'' \<and>
   urlparse_hostname chk ''https:'' = Inr None \<and>
   determine_api_url chk (normalize_url []) = Inl AttributeError \<and>
   init chk net [] tok = (Inl AttributeError, [])"
  by (simp add: init_def url_defs)

lemma dropWhile_replicate_same: "P c \<Longrightarrow> dropWhile P (replicate n c @ r) = dropWhile P r"
  by (induction n) simp_all

lemma rstrip_slash_replicate: "rstrip_slash (s @ replicate n CHR ''/'') = rstrip_slash s"
  by (simp add: rstrip_slash_def dropWhile_replicate_same)

lemma normalize_url_github_variants:
  "normalize_url (''github.com'' @ replicate n CHR ''/'') = ''https://github.com''"
  "normalize_url (''https://github.com'' @ replicate n CHR ''/'') = ''https://github.com''"
  "normalize_url (''http://github.com'' @ replicate n CHR ''/'') = ''http://github.com''"
proof -
  have "normalize_url (''github.com'' @ replicate n CHR ''/'')
      = rstrip_slash (''https://github.com'' @ replicate n CHR ''/'')"
    by (simp add: normalize_url_def startswith_def)
  then show "normalize_url (''github.com'' @ replicate n CHR ''/'') = ''https://github.com''"
    by (simp only: rstrip_slash_replicate) (simp add: rstrip_slash_def)
  have "normalize_url (''https://github.com'' @ replicate n CHR ''/'')
      = rstrip_slash (''https://github.com'' @ replicate n CHR ''/'')"
    by (simp add: normalize_url_def startswith_def)
  then show "normalize_url (''https://github.com'' @ replicate n CHR ''/'') = ''https://github.com''"
    by (simp only: rstrip_slash_replicate) (simp add: rstrip_slash_def)
  have "normalize_url (''http://github.com'' @ replicate n CHR ''/'')
      = rstrip_slash (''http://github.com'' @ replicate n CHR ''/'')"
    by (simp add: normalize_url_def startswith_def)
  then show "normalize_url (''http://github.com'' @ replicate n CHR ''/'') = ''http://github.com''"
    by (simp only: rstrip_slash_replicate) (simp add: rstrip_slash_def)
qed

lemma lower_github: "lower ''github.com'' = ''github.com''"
  by (simp add: lower_def lower_char_def)

lemma roots_public:
  assumes "urlparse_hostname chk b = Inr (Some h)" and "lower h = ''github.com''"
  shows "determine_api_url chk b = Inr ''https://api.github.com''"
    and "determine_graphql_url chk b = Inr ''https://api.github.com/graphql''"
  using assms by (simp_all add: determine_api_url_def determine_graphql_url_def)

lemma roots_self_hosted:
  assumes "urlparse_hostname chk b = Inr (Some h)" and "lower h \<noteq> ''github.com''"
  shows "determine_api_url chk b = Inr (b @ ''/api/v3'')"
    and "determine_graphql_url chk b = Inr (b @ ''/api/graphql'')"
  using assms by (simp_all add: determine_api_url_def determine_graphql_url_def)

lemma urlparse_hostname_github_iff:
  assumes "urlparse_hostname chk b = Inr (Some h)"
  shows "lower h = ''github.com'' \<longleftrightarrow> h = ''github.com''"
proof -
  from assms obtain netloc where "hostname netloc = Some h"
    by (auto simp: urlparse_hostname_def split: sum.splits)
  then show ?thesis by (rule hostname_github_iff)
qed

lemma github_host_text: "host_text ''github.com''"
  by (simp add: host_text_def netloc_char_def)

lemma roots_github_variants:
  "determine_api_url chk (normalize_url (''github.com'' @ replicate n CHR ''/'')) = Inr ''https://api.github.com''"
  "determine_graphql_url chk (normalize_url (''github.com'' @ replicate n CHR ''/'')) = Inr ''https://api.github.com/graphql''"
  "determine_api_url chk (normalize_url (''https://github.com'' @ replicate n CHR ''/'')) = Inr ''https://api.github.com''"
  "determine_graphql_url chk (normalize_url (''https://github.com'' @ replicate n CHR ''/'')) = Inr ''https://api.github.com/graphql''"
  "determine_api_url chk (normalize_url (''http://github.com'' @ replicate n CHR ''/'')) = Inr ''https://api.github.com''"
  "determine_graphql_url chk (normalize_url (''http://github.com'' @ replicate n CHR ''/'')) = Inr ''https://api.github.com/graphql''"
proof -
  have s: "urlparse_hostname chk ''https://github.com'' = Inr (Some ''github.com'')"
    using urlparse_hostname_host(1) [OF github_host_text, of chk] by (simp add: lower_github)
  have p: "urlparse_hostname chk ''http://github.com'' = Inr (Some ''github.com'')"
    using urlparse_hostname_host(2) [OF github_host_text, of chk] by (simp add: lower_github)
  show "determine_api_url chk (normalize_url (''github.com'' @ replicate n CHR ''/'')) = Inr ''https://api.github.com''"
    by (simp only: normalize_url_github_variants roots_public(1) [OF s lower_github])
  show "determine_graphql_url chk (normalize_url (''github.com'' @ replicate n CHR ''/'')) = Inr ''https://api.github.com/graphql''"
    by (simp only: normalize_url_github_variants roots_public(2) [OF s lower_github])
  show "determine_api_url chk (normalize_url (''https://github.com'' @ replicate n CHR ''/'')) = Inr ''https://api.github.com''"
    by (simp only: normalize_url_github_variants roots_public(1) [OF s lower_github])
  show "determine_graphql_url chk (normalize_url (''https://github.com'' @ replicate n CHR ''/'')) = Inr ''https://api.github.com/graphql''"
    by (simp only: normalize_url_github_variants roots_public(2) [OF s lower_github])
  show "determine_api_url chk (normalize_url (''http://github.com'' @ replicate n CHR ''/'')) = Inr ''https://api.github.com''"
    by (simp only: normalize_url_github_variants roots_public(1) [OF p lower_github])
  show "determine_graphql_url chk (normalize_url (''http://github.com'' @ replicate n CHR ''/'')) = Inr ''https://api.github.com/graphql''"
    by (simp only: normalize_url_github_variants roots_public(2) [OF p lower_github])
qed

lemma self_hosted_not_public:
  "b @ ''/api/v3'' \<noteq> ''https://api.github.com''"
  "b @ ''/api/graphql'' \<noteq> ''https://api.github.com/graphql''"
proof -
  show "b @ ''/api/v3'' \<noteq> ''https://api.github.com''"
  proof
    assume "b @ ''/api/v3'' = ''https://api.github.com''"
    then have "last (b @ ''/api/v3'') = last ''https://api.github.com''" by (rule arg_cong)
    then show False by simp
  qed
  show "b @ ''/api/graphql'' \<noteq> ''https://api.github.com/graphql''"
  proof
    assume "b @ ''/api/graphql'' = ''https://api.github.com/graphql''"
    then have "rev (b @ ''/api/graphql'') = rev ''https://api.github.com/graphql''"
      by (rule arg_cong)
    then have "take 12 (rev ''/api/graphql'' @ rev b) = take 12 (rev ''https://api.github.com/graphql'')"
      by simp
    then show False by simp
  qed
qed

lemma roots_depend_on_hostname:
  assumes "urlparse_hostname chk b1 = urlparse_hostname chk b2"
  shows "(determine_api_url chk b1 = Inr ''https://api.github.com'') =
         (determine_api_url chk b2 = Inr ''https://api.github.com'')"
    and "(determine_graphql_url chk b1 = Inr ''https://api.github.com/graphql'') =
         (determine_graphql_url chk b2 = Inr ''https://api.github.com/graphql'')"
  using assms
  by (simp_all add: determine_api_url_def determine_graphql_url_def self_hosted_not_public
      split: sum.splits option.splits)

text \<open>
  C1. Whenever the normalised base host parses to the host name \<open>github.com\<close>, the REST
  root is \<open>https://api.github.com\<close> and the GraphQL root is
  \<open>https://api.github.com/graphql\<close>; this is so for \<open>github.com\<close> written without a
  scheme, with \<open>https://\<close> or with \<open>http://\<close>, followed by any number of slashes. The
  choice of the public roots rests on the parsed host name alone: two base URLs with the
  same parsed host name are both public or both not, and no response enters the
  functions.
\<close>

theorem public_cloud_roots:
  "(urlparse_hostname chk (normalize_url u) = Inr (Some ''github.com'') \<longrightarrow>
      determine_api_url chk (normalize_url u) = Inr ''https://api.github.com'' \<and>
      determine_graphql_url chk (normalize_url u) = Inr ''https://api.github.com/graphql'') \<and>
   determine_api_url chk (normalize_url (''github.com'' @ replicate n CHR ''/'')) = Inr ''https://api.github.com'' \<and>
   determine_graphql_url chk (normalize_url (''github.com'' @ replicate n CHR ''/'')) = Inr ''https://api.github.com/graphql'' \<and>
   determine_api_url chk (normalize_url (''https://github.com'' @ replicate n CHR ''/'')) = Inr ''https://api.github.com'' \<and>
   determine_graphql_url chk (normalize_url (''https://github.com'' @ replicate n CHR ''/'')) = Inr ''https://api.github.com/graphql'' \<and>
   determine_api_url chk (normalize_url (''http://github.com'' @ replicate n CHR ''/'')) = Inr ''https://api.github.com'' \<and>
   determine_graphql_url chk (normalize_url (''http://github.com'' @ replicate n CHR ''/'')) = Inr ''https://api.github.com/graphql'' \<and>
   (urlparse_hostname chk b1 = urlparse_hostname chk b2 \<longrightarrow>
      (determine_api_url chk b1 = Inr ''https://api.github.com'') =
        (determine_api_url chk b2 = Inr ''https://api.github.com'') \<and>
      (determine_graphql_url chk b1 = Inr ''https://api.github.com/graphql'') =
        (determine_graphql_url chk b2 = Inr ''https://api.github.com/graphql''))"
proof -
  have 1: "urlparse_hostname chk (normalize_url u) = Inr (Some ''github.com'') \<longrightarrow>
      determine_api_url chk (normalize_url u) = Inr ''https://api.github.com'' \<and>
      determine_graphql_url chk (normalize_url u) = Inr ''https://api.github.com/graphql''"
    using roots_public [of chk "normalize_url u" "''github.com''"] lower_github by blast
  have 2: "urlparse_hostname chk b1 = urlparse_hostname chk b2 \<longrightarrow>
      (determine_api_url chk b1 = Inr ''https://api.github.com'') =
        (determine_api_url chk b2 = Inr ''https://api.github.com'') \<and>
      (determine_graphql_url chk b1 = Inr ''https://api.github.com/graphql'') =
        (determine_graphql_url chk b2 = Inr ''https://api.github.com/graphql'')"
    using roots_depend_on_hostname [of chk b1 b2] by blast
  show ?thesis
    using 1 2 roots_github_variants [of chk n] by blast
qed

theorem public_cloud_roots_witness:
  "urlparse_hostname (\<lambda>_. False) (normalize_url ''http://github.com/'') = Inr (Some ''github.com'') \<and>
   determine_api_url (\<lambda>_. False) (normalize_url ''http://github.com/'') = Inr ''https://api.github.com'' \<and>
   determine_graphql_url (\<lambda>_. False) (normalize_url ''http://github.com/'') = Inr ''https://api.github.com/graphql'' \<and>
   determine_api_url (\<lambda>_. False) (normalize_url ''github.com//'') = Inr ''https://api.github.com'' \<and>
   urlparse_hostname (\<lambda>_. False) ''https://github.com'' =
     urlparse_hostname (\<lambda>_. False) ''http://user@GitHub.com:80/x'' \<and>
   (determine_api_url (\<lambda>_. False) ''https://github.com'' = Inr ''https://api.github.com'') =
     (determine_api_url (\<lambda>_. False) ''http://user@GitHub.com:80/x'' = Inr ''https://api.github.com'')"
proof -
  have h: "urlparse_hostname (\<lambda>_. False) (normalize_url ''http://github.com/'') = Inr (Some ''github.com'')"
    by (simp add: url_defs)
  have e1: "urlparse_hostname (\<lambda>_. False) ''https://github.com'' = Inr (Some ''github.com'')"
    by (simp add: url_defs)
  have e2: "urlparse_hostname (\<lambda>_. False) ''http://user@GitHub.com:80/x'' = Inr (Some ''github.com'')"
    by (simp add: url_defs char_of_eq_iff)
  have e: "urlparse_hostname (\<lambda>_. False) ''https://github.com'' =
      urlparse_hostname (\<lambda>_. False) ''http://user@GitHub.com:80/x''"
    by (simp only: e1 e2)
  show ?thesis
    using h e public_cloud_roots [of "\<lambda>_. False" "''http://github.com/''" "Suc (Suc 0)"
      "''https://github.com''" "''http://user@GitHub.com:80/x''"]
    by simp
qed

text \<open>
  C2. Whenever the normalised base host parses to a host name other than \<open>github.com\<close>,
  the REST root is the normalised URL followed by \<open>/api/v3\<close> and the GraphQL root is the
  normalised URL followed by \<open>/api/graphql\<close>. (A URL without a host name is the case of
  C9.)
\<close>

theorem self_hosted_roots:
  assumes "urlparse_hostname chk (normalize_url u) = Inr (Some h)" and "h \<noteq> ''github.com''"
  shows "determine_api_url chk (normalize_url u) = Inr (normalize_url u @ ''/api/v3'') \<and>
         determine_graphql_url chk (normalize_url u) = Inr (normalize_url u @ ''/api/graphql'')"
proof -
  from assms have "lower h \<noteq> ''github.com''"
    by (simp add: urlparse_hostname_github_iff)
  with assms(1) show ?thesis
    by (simp add: roots_self_hosted)
qed

theorem self_hosted_roots_witness:
  "urlparse_hostname (\<lambda>_. False) (normalize_url ''github.example.com'') = Inr (Some ''github.example.com'') \<and>
   determine_api_url (\<lambda>_. False) (normalize_url ''github.example.com'') = Inr ''https://github.example.com/api/v3'' \<and>
   determine_graphql_url (\<lambda>_. False) (normalize_url ''github.example.com'') = Inr ''https://github.example.com/api/graphql''"
proof -
  have h: "urlparse_hostname (\<lambda>_. False) (normalize_url ''github.example.com'') = Inr (Some ''github.example.com'')"
    by (simp add: url_defs)
  have n: "normalize_url ''github.example.com'' = ''https://github.example.com''"
    by (simp add: normalize_url_def startswith_def rstrip_slash_def)
  have d: "''github.example.com'' \<noteq> ''github.com''" by simp
  show ?thesis
    using h self_hosted_roots [OF h d] by (simp add: n)
qed

lemma roots_plain_host:
  assumes "host_text g" and "lower g = ''github.com''"
  shows "determine_api_url chk (''https://'' @ g) = Inr ''https://api.github.com''"
    and "determine_graphql_url chk (''https://'' @ g) = Inr ''https://api.github.com/graphql''"
    and "determine_api_url chk (''http://'' @ g) = Inr ''https://api.github.com''"
    and "determine_graphql_url chk (''http://'' @ g) = Inr ''https://api.github.com/graphql''"
proof -
  have l: "lower (lower g) = ''github.com''"
    using lower_idem [of g] by (simp only: assms(2))
  show "determine_api_url chk (''https://'' @ g) = Inr ''https://api.github.com''"
    by (rule roots_public(1) [OF urlparse_hostname_host(1) [OF assms(1)] l])
  show "determine_graphql_url chk (''https://'' @ g) = Inr ''https://api.github.com/graphql''"
    by (rule roots_public(2) [OF urlparse_hostname_host(1) [OF assms(1)] l])
  show "determine_api_url chk (''http://'' @ g) = Inr ''https://api.github.com''"
    by (rule roots_public(1) [OF urlparse_hostname_host(2) [OF assms(1)] l])
  show "determine_graphql_url chk (''http://'' @ g) = Inr ''https://api.github.com/graphql''"
    by (rule roots_public(2) [OF urlparse_hostname_host(2) [OF assms(1)] l])
qed

lemma roots_plain_host_port:
  assumes "host_text g" and "port_text p" and "lower g = ''github.com''"
  shows "determine_api_url chk (''https://'' @ g @ '':'' @ p) = Inr ''https://api.github.com''"
    and "determine_graphql_url chk (''https://'' @ g @ '':'' @ p) = Inr ''https://api.github.com/graphql''"
    and "determine_api_url chk (''http://'' @ g @ '':'' @ p) = Inr ''https://api.github.com''"
    and "determine_graphql_url chk (''http://'' @ g @ '':'' @ p) = Inr ''https://api.github.com/graphql''"
proof -
  have l: "lower (lower g) = ''github.com''"
    using lower_idem [of g] by (simp only: assms(3))
  have c: "'':'' @ p = CHR '':'' # p" by simp
  show "determine_api_url chk (''https://'' @ g @ '':'' @ p) = Inr ''https://api.github.com''"
    unfolding c by (rule roots_public(1) [OF urlparse_hostname_host_port(1) [OF assms(1,2)] l])
  show "determine_graphql_url chk (''https://'' @ g @ '':'' @ p) = Inr ''https://api.github.com/graphql''"
    unfolding c by (rule roots_public(2) [OF urlparse_hostname_host_port(1) [OF assms(1,2)] l])
  show "determine_api_url chk (''http://'' @ g @ '':'' @ p) = Inr ''https://api.github.com''"
    unfolding c by (rule roots_public(1) [OF urlparse_hostname_host_port(2) [OF assms(1,2)] l])
  show "determine_graphql_url chk (''http://'' @ g @ '':'' @ p) = Inr ''https://api.github.com/graphql''"
    unfolding c by (rule roots_public(2) [OF urlparse_hostname_host_port(2) [OF assms(1,2)] l])
qed

lemma roots_examples:
  "determine_api_url chk ''https://GitHub.com'' = Inr ''https://api.github.com''"
  "determine_graphql_url chk ''https://GitHub.com'' = Inr ''https://api.github.com/graphql''"
  "determine_api_url chk ''https://github.com:443'' = Inr ''https://api.github.com''"
  "determine_graphql_url chk ''https://github.com:443'' = Inr ''https://api.github.com/graphql''"
  "determine_api_url chk ''https://GHE.Example.com:8443'' = Inr ''https://GHE.Example.com:8443/api/v3''"
  "determine_graphql_url chk ''https://GHE.Example.com:8443'' = Inr ''https://GHE.Example.com:8443/api/graphql''"
  by (simp_all add: url_defs char_of_eq_iff)

text \<open>
  C10. The test for the public cloud ignores case and port: a base URL whose parsed host
  name lowers to \<open>github.com\<close> gets the fixed public roots, and so does every plain host
  that lowers to \<open>github.com\<close>, under either scheme, with or without a port (for instance
  \<open>https://GitHub.com\<close> and \<open>https://github.com:443\<close>). On any other host name both
  roots are the base URL as given, case and port kept, followed by the fixed path.
\<close>

theorem host_check_ignores_case_and_port:
  "(urlparse_hostname chk b = Inr (Some h) \<and> lower h = ''github.com'' \<longrightarrow>
      determine_api_url chk b = Inr ''https://api.github.com'' \<and>
      determine_graphql_url chk b = Inr ''https://api.github.com/graphql'') \<and>
   (host_text g \<and> port_text p \<and> lower g = ''github.com'' \<longrightarrow>
      determine_api_url chk (''https://'' @ g) = Inr ''https://api.github.com'' \<and>
      determine_graphql_url chk (''https://'' @ g) = Inr ''https://api.github.com/graphql'' \<and>
      determine_api_url chk (''https://'' @ g @ '':'' @ p) = Inr ''https://api.github.com'' \<and>
      determine_graphql_url chk (''https://'' @ g @ '':'' @ p) = Inr ''https://api.github.com/graphql'' \<and>
      determine_api_url chk (''http://'' @ g @ '':'' @ p) = Inr ''https://api.github.com'' \<and>
      determine_graphql_url chk (''http://'' @ g @ '':'' @ p) = Inr ''https://api.github.com/graphql'') \<and>
   determine_api_url chk ''https://GitHub.com'' = Inr ''https://api.github.com'' \<and>
   determine_graphql_url chk ''https://GitHub.com'' = Inr ''https://api.github.com/graphql'' \<and>
   determine_api_url chk ''https://github.com:443'' = Inr ''https://api.github.com'' \<and>
   determine_graphql_url chk ''https://github.com:443'' = Inr ''https://api.github.com/graphql'' \<and>
   (urlparse_hostname chk b' = Inr (Some h') \<and> lower h' \<noteq> ''github.com'' \<longrightarrow>
      determine_api_url chk b' = Inr (b' @ ''/api/v3'') \<and>
      determine_graphql_url chk b' = Inr (b' @ ''/api/graphql'')) \<and>
   determine_api_url chk ''https://GHE.Example.com:8443'' = Inr ''https://GHE.Example.com:8443/api/v3'' \<and>
   determine_graphql_url chk ''https://GHE.Example.com:8443'' = Inr ''https://GHE.Example.com:8443/api/graphql''"
proof -
  have 1: "urlparse_hostname chk b = Inr (Some h) \<and> lower h = ''github.com'' \<longrightarrow>
      determine_api_url chk b = Inr ''https://api.github.com'' \<and>
      determine_graphql_url chk b = Inr ''https://api.github.com/graphql''"
    using roots_public [of chk b h] by blast
  have 2: "host_text g \<and> port_text p \<and> lower g = ''github.com'' \<longrightarrow>
      determine_api_url chk (''https://'' @ g) = Inr ''https://api.github.com'' \<and>
      determine_graphql_url chk (''https://'' @ g) = Inr ''https://api.github.com/graphql'' \<and>
      determine_api_url chk (''https://'' @ g @ '':'' @ p) = Inr ''https://api.github.com'' \<and>
      determine_graphql_url chk (''https://'' @ g @ '':'' @ p) = Inr ''https://api.github.com/graphql'' \<and>
      determine_api_url chk (''http://'' @ g @ '':'' @ p) = Inr ''https://api.github.com'' \<and>
      determine_graphql_url chk (''http://'' @ g @ '':'' @ p) = Inr ''https://api.github.com/graphql''"
    using roots_plain_host [of g chk] roots_plain_host_port [of g p chk] by blast
  have 3: "urlparse_hostname chk b' = Inr (Some h') \<and> lower h' \<noteq> ''github.com'' \<longrightarrow>
      determine_api_url chk b' = Inr (b' @ ''/api/v3'') \<and>
      determine_graphql_url chk b' = Inr (b' @ ''/api/graphql'')"
    using roots_self_hosted [of chk b' h'] by blast
  show ?thesis
    using 1 2 3 roots_examples [of chk] by blast
qed

theorem host_check_ignores_case_and_port_witness:
  "urlparse_hostname (\<lambda>_. False) ''https://user@github.com:443/x'' = Inr (Some ''github.com'') \<and>
   determine_api_url (\<lambda>_. False) ''https://user@github.com:443/x'' = Inr ''https://api.github.com'' \<and>
   host_text ''GITHUB.Com'' \<and> port_text ''8443'' \<and> lower ''GITHUB.Com'' = ''github.com'' \<and>
   determine_api_url (\<lambda>_. False) ''http://GITHUB.Com:8443'' = Inr ''https://api.github.com'' \<and>
   determine_graphql_url (\<lambda>_. False) ''https://GITHUB.Com'' = Inr ''https://api.github.com/graphql'' \<and>
   urlparse_hostname (\<lambda>_. False) ''http://Git.Example.org:8080'' = Inr (Some ''git.example.org'') \<and>
   lower ''git.example.org'' \<noteq> ''github.com'' \<and>
   determine_api_url (\<lambda>_. False) ''http://Git.Example.org:8080'' = Inr ''http://Git.Example.org:8080/api/v3'' \<and>
   determine_graphql_url (\<lambda>_. False) ''http://Git.Example.org:8080'' = Inr ''http://Git.Example.org:8080/api/graphql''"
proof -
  have a: "urlparse_hostname (\<lambda>_. False) ''https://user@github.com:443/x'' = Inr (Some ''github.com'')"
    by (simp add: url_defs char_of_eq_iff)
  have b: "host_text ''GITHUB.Com''" "port_text ''8443''"
    by (simp_all add: host_text_def port_text_def netloc_char_def)
  have c: "lower ''GITHUB.Com'' = ''github.com''"
    by (simp add: lower_def lower_char_def char_of_eq_iff)
  have d: "urlparse_hostname (\<lambda>_. False) ''http://Git.Example.org:8080'' = Inr (Some ''git.example.org'')"
    by (simp add: url_defs char_of_eq_iff)
  have e: "lower ''git.example.org'' \<noteq> ''github.com''"
    by (simp add: lower_def lower_char_def)
  show ?thesis
    using a b c d e lower_github
      host_check_ignores_case_and_port [of "\<lambda>_. False" "''https://user@github.com:443/x''"
        "''github.com''" "''GITHUB.Com''" "''8443''" "''http://Git.Example.org:8080''"
        "''git.example.org''"]
    by simp
qed

section \<open>Construction\<close>

lemma graphql_url_defined:
  assumes "determine_api_url chk b = Inr api"
  shows "\<exists>gql. determine_graphql_url chk b = Inr gql"
  using assms
  by (auto simp: determine_api_url_def determine_graphql_url_def
      split: sum.splits option.splits if_splits)

lemma init_identity_failure:
  assumes "determine_api_url chk (normalize_url base) = Inr api"
    and "get_authenticated_user (net (user_request api (rest_headers tok))) = Inl e"
  shows "init chk net base tok = (Inl e, [user_request api (rest_headers tok)])"
proof -
  obtain gql where "determine_graphql_url chk (normalize_url base) = Inr gql"
    using graphql_url_defined [OF assms(1)] by blast
  with assms show ?thesis
    by (simp add: init_def)
qed

lemma init_success:
  assumes "determine_api_url chk (normalize_url base) = Inr api"
    and "determine_graphql_url chk (normalize_url base) = Inr gql"
    and "get_authenticated_user (net (user_request api (rest_headers tok))) = Inr u"
  shows "init chk net base tok =
    (Inr \<lparr>base_url = normalize_url base, token = tok, api_url = api, graphql_url = gql,
          headers = rest_headers tok, graphql_headers = gql_headers tok, username = u\<rparr>,
     [user_request api (rest_headers tok)])"
  using assms by (simp add: init_def)

text \<open>
  C6. When the identity request fails (the call raises, the status is one
  \<open>raise_for_status\<close> rejects, that is 4xx or 5xx, or the decoded object has no usable
  \<open>login\<close>), the constructor raises: no handler is returned, and the identity request is
  the only request that has been issued. The same holds for every other way the identity
  lookup raises.
\<close>

theorem construction_fails_without_identity:
  assumes "determine_api_url chk (normalize_url base) = Inr api"
  shows
   "(net (user_request api (rest_headers tok)) = TransportError \<longrightarrow>
       init chk net base tok = (Inl RequestException, [user_request api (rest_headers tok)])) \<and>
    (net (user_request api (rest_headers tok)) = Reply st bd \<and> raise_for_status st \<longrightarrow>
       init chk net base tok = (Inl RequestException, [user_request api (rest_headers tok)])) \<and>
    (net (user_request api (rest_headers tok)) = Reply st (Some (JObj kvs)) \<and>
       \<not> raise_for_status st \<and> lacks_login kvs \<longrightarrow>
       init chk net base tok = (Inl ValueError, [user_request api (rest_headers tok)])) \<and>
    (get_authenticated_user (net (user_request api (rest_headers tok))) = Inl e \<longrightarrow>
       init chk net base tok = (Inl e, [user_request api (rest_headers tok)]))"
proof -
  let ?r = "net (user_request api (rest_headers tok))"
  have 1: "?r = TransportError \<longrightarrow> get_authenticated_user ?r = Inl RequestException"
    by (simp add: get_authenticated_user_def)
  have 2: "?r = Reply st bd \<and> raise_for_status st \<longrightarrow>
      get_authenticated_user ?r = Inl RequestException"
    by (simp add: get_authenticated_user_def)
  have 3: "?r = Reply st (Some (JObj kvs)) \<and> \<not> raise_for_status st \<and> lacks_login kvs \<longrightarrow>
      get_authenticated_user ?r = Inl ValueError"
    by (auto simp: get_authenticated_user_def lacks_login_def split: option.splits)
  show ?thesis
    using 1 2 3 init_identity_failure [OF assms, of net tok] by blast
qed

theorem construction_fails_without_identity_witness:
  "determine_api_url (\<lambda>_. False) (normalize_url ''github.com'') = Inr ''https://api.github.com'' \<and>
   init (\<lambda>_. False) (\<lambda>_. TransportError) ''github.com'' ''t0k'' =
     (Inl RequestException, [user_request ''https://api.github.com'' (rest_headers ''t0k'')]) \<and>
   raise_for_status 401 \<and>
   init (\<lambda>_. False) (\<lambda>_. Reply 401 None) ''github.com'' ''t0k'' =
     (Inl RequestException, [user_request ''https://api.github.com'' (rest_headers ''t0k'')]) \<and>
   \<not> raise_for_status 200 \<and> lacks_login [(''id'', JNum 7), (''login'', JStr [])] \<and>
   init (\<lambda>_. False) (\<lambda>_. Reply 200 (Some (JObj [(''id'', JNum 7), (''login'', JStr [])])))
       ''github.com'' ''t0k'' =
     (Inl ValueError, [user_request ''https://api.github.com'' (rest_headers ''t0k'')]) \<and>
   get_authenticated_user (Reply 200 (Some (JArr []))) = Inl AttributeError \<and>
   init (\<lambda>_. False) (\<lambda>_. Reply 200 (Some (JArr []))) ''github.com'' ''t0k'' =
     (Inl AttributeError, [user_request ''https://api.github.com'' (rest_headers ''t0k'')])"
proof -
  have a: "determine_api_url (\<lambda>_. False) (normalize_url ''github.com'') = Inr ''https://api.github.com''"
    by (simp add: url_defs)
  have b: "raise_for_status 401" "\<not> raise_for_status 200"
    by (simp_all add: raise_for_status_def)
  have c: "lacks_login [(''id'', JNum 7), (''login'', JStr [])]"
    by (simp add: lacks_login_def)
  have d: "get_authenticated_user (Reply 200 (Some (JArr []))) = Inl AttributeError"
    by (simp add: get_authenticated_user_def b)
  show ?thesis
    using a b c d
      construction_fails_without_identity [OF a, of "\<lambda>_. TransportError" "''t0k''"]
      construction_fails_without_identity [OF a, of "\<lambda>_. Reply 401 None" "''t0k''" 401 None]
      construction_fails_without_identity [OF a,
        of "\<lambda>_. Reply 200 (Some (JObj [(''id'', JNum 7), (''login'', JStr [])]))" "''t0k''"
           200 _ "[(''id'', JNum 7), (''login'', JStr [])]"]
      construction_fails_without_identity [OF a, of "\<lambda>_. Reply 200 (Some (JArr []))" "''t0k''"
           _ _ _ AttributeError]
    by simp
qed

section \<open>GraphQL requests\<close>

lemma nonempty_errors_has_key:
  assumes "has_nonempty_errors_list (JObj kvs)"
  shows "''errors'' \<in> set (map fst kvs)"
proof -
  from assms obtain v where "map_of kvs ''errors'' = Some v"
    by (auto simp: has_nonempty_errors_list_def split: option.splits)
  then have "(''errors'', v) \<in> set kvs" by (rule map_of_SomeD)
  then show ?thesis by force
qed

lemma make_graphql_request_object:
  assumes "\<not> raise_for_status st"
  shows "make_graphql_request (Reply st (Some (JObj kvs))) =
    (if ''errors'' \<in> set (map fst kvs) then Inl ValueError
     else Inr (case map_of kvs ''data'' of None \<Rightarrow> JObj [] | Some d \<Rightarrow> d))"
  using assms
  by (simp add: make_graphql_request_def errors_in_def split: option.splits)

text \<open>
  C5, as the claim states it, fails: an envelope whose \<open>errors\<close> list is empty makes
  the request raise as well, and its \<open>data\<close> is not returned.
\<close>

theorem graphql_raises_on_empty_errors_list:
  "make_graphql_request
     (Reply 200 (Some (JObj [(''data'', JObj [(''viewer'', JStr ''octocat'')]), (''errors'', JArr [])])))
     = Inl ValueError \<and>
   \<not> has_nonempty_errors_list
     (JObj [(''data'', JObj [(''viewer'', JStr ''octocat'')]), (''errors'', JArr [])])"
  by (simp add: make_graphql_request_def errors_in_def raise_for_status_def
      has_nonempty_errors_list_def)

text \<open>
  C5, amended. On a reply whose status \<open>raise_for_status\<close> accepts and whose body is an
  object, the request raises ValueError exactly when the object has the key \<open>errors\<close>,
  whatever is under it; a non-empty errors list is one such case. It then returns no
  data. Without the key it returns what is under \<open>data\<close> alone, and the empty object when
  there is no \<open>data\<close>.
\<close>

theorem graphql_raises_iff_errors_key:
  assumes "\<not> raise_for_status st"
  shows
   "((make_graphql_request (Reply st (Some (JObj kvs))) = Inl ValueError) =
       (''errors'' \<in> set (map fst kvs))) \<and>
    (has_nonempty_errors_list (JObj kvs) \<longrightarrow>
       make_graphql_request (Reply st (Some (JObj kvs))) = Inl ValueError) \<and>
    (''errors'' \<notin> set (map fst kvs) \<longrightarrow>
       make_graphql_request (Reply st (Some (JObj kvs))) =
         Inr (case map_of kvs ''data'' of None \<Rightarrow> JObj [] | Some d \<Rightarrow> d))"
  using nonempty_errors_has_key [of kvs]
  by (auto simp: make_graphql_request_object [OF assms])

theorem graphql_raises_iff_errors_key_witness:
  "\<not> raise_for_status 200 \<and>
   has_nonempty_errors_list (JObj [(''data'', JNull), (''errors'', JArr [JStr ''boom''])]) \<and>
   make_graphql_request (Reply 200 (Some (JObj [(''data'', JNull), (''errors'', JArr [JStr ''boom''])])))
     = Inl ValueError \<and>
   ''errors'' \<notin> set (map fst [(''data'', JObj [(''viewer'', JStr ''octocat'')]), (''extensions'', JObj [])]) \<and>
   make_graphql_request
     (Reply 200 (Some (JObj [(''data'', JObj [(''viewer'', JStr ''octocat'')]), (''extensions'', JObj [])])))
     = Inr (JObj [(''viewer'', JStr ''octocat'')])"
proof -
  have a: "\<not> raise_for_status 200" by (simp add: raise_for_status_def)
  have b: "has_nonempty_errors_list (JObj [(''data'', JNull), (''errors'', JArr [JStr ''boom''])])"
    by (simp add: has_nonempty_errors_list_def)
  show ?thesis
    using a b
      graphql_raises_iff_errors_key [OF a, of "[(''data'', JNull), (''errors'', JArr [JStr ''boom''])]"]
      graphql_raises_iff_errors_key [OF a,
        of "[(''data'', JObj [(''viewer'', JStr ''octocat'')]), (''extensions'', JObj [])]"]
    by simp
qed

section \<open>Pagination\<close>

subsection \<open>One turn of the loop\<close>

lemma fetch_loop_page:
  assumes "client s b c = (Returns resp, s')" and "members resp = Some ms"
    and "\<not> falsy (next_cursor resp)"
  shows "fetch_loop sl client b s c tr =
    fetch_loop sl client b s' (next_cursor resp) (tr @ Request b c # map Yield ms)"
  using assms by (subst fetch_loop.simps) simp

lemma fetch_loop_last_page:
  assumes "client s b c = (Returns resp, s')" and "members resp = Some ms"
    and "falsy (next_cursor resp)"
  shows "fetch_loop sl client b s c tr = Some (tr @ Request b c # map Yield ms, Returned)"
  using assms by (subst fetch_loop.simps) simp

lemma fetch_loop_ratelimited:
  assumes "client s b c = (RaisesSlackApiError e, s')" and "error e = Some ''ratelimited''"
    and "retry_delay e = Inr d" and "sl d = None"
  shows "fetch_loop sl client b s c tr =
    fetch_loop sl client b s' c (tr @ [Request b c, Sleep d])"
  using assms by (subst fetch_loop.simps) simp

lemma fetch_loop_api_error:
  assumes "client s b c = (RaisesSlackApiError e, s')" and "error e \<noteq> Some ''ratelimited''"
  shows "fetch_loop sl client b s c tr = Some (tr @ [Request b c], Raised (SlackApiError e))"
  using assms by (subst fetch_loop.simps) simp

lemma fetch_loop_exception:
  assumes "client s b c = (RaisesException, s')"
  shows "fetch_loop sl client b s c tr = Some (tr @ [Request b c], Raised UnexpectedException)"
  using assms by (subst fetch_loop.simps) simp

subsection \<open>Projections of a run\<close>

lemma yields_append: "yields (xs @ ys) = yields xs @ yields ys"
  by (induction xs rule: yields.induct) simp_all

lemma requests_append: "requests (xs @ ys) = requests xs @ requests ys"
  by (induction xs rule: requests.induct) simp_all

lemma sleeps_append: "sleeps (xs @ ys) = sleeps xs @ sleeps ys"
  by (induction xs rule: sleeps.induct) simp_all

lemma yields_map_Yield: "yields (map Yield ms) = ms"
  by (induction ms) simp_all

lemma requests_map_Yield: "requests (map Yield ms) = []"
  by (induction ms) simp_all

lemma sleeps_map_Yield: "sleeps (map Yield ms) = []"
  by (induction ms) simp_all

lemma yields_page_trace: "yields (page_trace b c ps) = concat (map the_members ps)"
  by (induction ps arbitrary: c) (simp_all add: yields_append yields_map_Yield)

lemma sleeps_page_trace: "sleeps (page_trace b c ps) = []"
  by (induction ps arbitrary: c) (simp_all add: sleeps_append sleeps_map_Yield)

lemma requests_page_trace:
  "ps \<noteq> [] \<Longrightarrow> requests (page_trace b c ps) = c # map next_cursor (butlast ps)"
proof (induction ps arbitrary: c)
  case Nil
  then show ?case by simp
next
  case (Cons p ps)
  show ?case
  proof (cases "ps = []")
    case True
    then show ?thesis by (simp add: requests_append requests_map_Yield)
  next
    case False
    with Cons.IH [of "next_cursor p"] show ?thesis
      by (simp add: requests_append requests_map_Yield)
  qed
qed

lemma length_concat_members:
  "length (concat (map the_members ps)) = sum_list (map (\<lambda>p. length (the_members p)) ps)"
  by (induction ps) simp_all

subsection \<open>A run over pages\<close>

lemma paged_single: "paged [p] = (members p \<noteq> None \<and> falsy (next_cursor p))"
  by (simp add: paged_def)

lemma paged_Cons:
  "ps \<noteq> [] \<Longrightarrow> paged (p # ps) = (members p \<noteq> None \<and> \<not> falsy (next_cursor p) \<and> paged ps)"
  by (auto simp: paged_def)

lemma fetch_loop_pages:
  assumes "paged ps"
    and "answers client s b (c # map next_cursor (butlast ps)) = map Returns ps"
  shows "fetch_loop sl client b s c tr = Some (tr @ page_trace b c ps, Returned)"
  using assms
proof (induction ps arbitrary: s c tr)
  case Nil
  then show ?case by (simp add: paged_def)
next
  case (Cons p ps)
  show ?case
  proof (cases "ps = []")
    case True
    with Cons.prems obtain ms where ms: "members p = Some ms" and f: "falsy (next_cursor p)"
      by (auto simp: paged_single)
    from Cons.prems(2) True have "client s b c = (Returns p, snd (client s b c))"
      by (simp add: prod_eq_iff)
    from fetch_loop_last_page [of client s b c p "snd (client s b c)" ms sl tr, OF this ms f]
      True ms show ?thesis
      by (simp add: the_members_def)
  next
    case False
    with Cons.prems(1) obtain ms where ms: "members p = Some ms"
      and f: "\<not> falsy (next_cursor p)" and ps: "paged ps"
      by (auto simp: paged_Cons)
    from Cons.prems(2) False have c: "client s b c = (Returns p, snd (client s b c))"
      and a: "answers client (snd (client s b c)) b (next_cursor p # map next_cursor (butlast ps))
              = map Returns ps"
      by (simp_all add: prod_eq_iff)
    have "fetch_loop sl client b s c tr =
        fetch_loop sl client b (snd (client s b c)) (next_cursor p) (tr @ Request b c # map Yield ms)"
      by (rule fetch_loop_page [of client s b c p "snd (client s b c)" ms sl tr, OF c ms f])
    also have "\<dots> = Some ((tr @ Request b c # map Yield ms) @ page_trace b (next_cursor p) ps, Returned)"
      by (rule Cons.IH [OF ps a])
    finally show ?thesis
      using ms by (simp add: the_members_def)
  qed
qed

text \<open>
  C3. Over a service whose answers to the cursors asked, starting with no cursor, are
  \<open>k\<close> pages of which only the last carries no next cursor, the run ends by returning;
  it asks once for each page, the first time with no cursor and then with the cursor of
  the page before, and yields the members of each page right after the request for it, in
  the order of the pages: the sum of the page sizes in all, with no suspension.
\<close>

theorem paginate_yields_all_pages_in_order:
  assumes "paged ps"
    and "answers client s b (None # map next_cursor (butlast ps)) = map Returns ps"
  shows "fetch_all_users sl client b s = Some (page_trace b None ps, Returned) \<and>
         yields (page_trace b None ps) = concat (map the_members ps) \<and>
         length (yields (page_trace b None ps)) = sum_list (map (\<lambda>p. length (the_members p)) ps) \<and>
         requests (page_trace b None ps) = None # map next_cursor (butlast ps) \<and>
         sleeps (page_trace b None ps) = []"
proof -
  have "fetch_all_users sl client b s = Some (page_trace b None ps, Returned)"
    using fetch_loop_pages [OF assms, of sl "[]"] by (simp add: fetch_all_users_def)
  moreover have "ps \<noteq> []"
    using assms(1) by (simp add: paged_def)
  ultimately show ?thesis
    by (simp add: yields_page_trace length_concat_members requests_page_trace sleeps_page_trace)
qed

theorem paginate_yields_all_pages_in_order_witness:
  "paged [\<lparr>members = Some [''U1'', ''U2''], response_metadata = Some (Some ''c1'')\<rparr>,
          \<lparr>members = Some [''U3''], response_metadata = Some (Some ''c2'')\<rparr>,
          \<lparr>members = Some [''U4'', ''U5''], response_metadata = None\<rparr>] \<and>
   fetch_all_users plain_sleep scripted 200
     [Returns \<lparr>members = Some [''U1'', ''U2''], response_metadata = Some (Some ''c1'')\<rparr>,
      Returns \<lparr>members = Some [''U3''], response_metadata = Some (Some ''c2'')\<rparr>,
      Returns \<lparr>members = Some [''U4'', ''U5''], response_metadata = None\<rparr>] =
     Some ([Request 200 None, Yield ''U1'', Yield ''U2'',
            Request 200 (Some ''c1''), Yield ''U3'',
            Request 200 (Some ''c2''), Yield ''U4'', Yield ''U5''], Returned)"
proof -
  let ?ps = "[\<lparr>members = Some [''U1'', ''U2''], response_metadata = Some (Some ''c1'')\<rparr>,
              \<lparr>members = Some [''U3''], response_metadata = Some (Some ''c2'')\<rparr>,
              \<lparr>members = Some [''U4'', ''U5''], response_metadata = None\<rparr>]"
  have a: "paged ?ps"
    by (simp add: paged_def falsy_def next_cursor_def)
  have b: "answers scripted (map Returns ?ps) 200 (None # map next_cursor (butlast ?ps))
      = map Returns ?ps"
    by (simp add: next_cursor_def)
  show ?thesis
    using a paginate_yields_all_pages_in_order [OF a b, of plain_sleep]
    by (simp add: next_cursor_def the_members_def)
qed

subsection \<open>Rate limiting and failures\<close>

lemma fetch_all_users_rate_limited_second_page:
  assumes "paged (p # ps)" and "ps \<noteq> []"
    and "error e = Some ''ratelimited''" and "retry_delay e = Inr d" and "sl d = None"
    and "answers client s b (None # next_cursor p # next_cursor p # map next_cursor (butlast ps))
         = Returns p # RaisesSlackApiError e # map Returns ps"
  shows "fetch_all_users sl client b s =
    Some (page_trace b None [p] @ [Request b (next_cursor p), Sleep d]
            @ page_trace b (next_cursor p) ps, Returned)"
proof -
  from assms(1,2) obtain ms where ms: "members p = Some ms"
    and f: "\<not> falsy (next_cursor p)" and ps: "paged ps"
    by (auto simp: paged_Cons)
  define s1 where "s1 = snd (client s b None)"
  define s2 where "s2 = snd (client s1 b (next_cursor p))"
  from assms(6) have c1: "client s b None = (Returns p, s1)"
    and c2: "client s1 b (next_cursor p) = (RaisesSlackApiError e, s2)"
    and a: "answers client s2 b (next_cursor p # map next_cursor (butlast ps)) = map Returns ps"
    by (simp_all add: prod_eq_iff s1_def s2_def)
  have "fetch_loop sl client b s None [] =
      fetch_loop sl client b s1 (next_cursor p) ([] @ Request b None # map Yield ms)"
    by (rule fetch_loop_page [of client s b None p s1 ms sl "[]", OF c1 ms f])
  also have "\<dots> = fetch_loop sl client b s2 (next_cursor p)
      (([] @ Request b None # map Yield ms) @ [Request b (next_cursor p), Sleep d])"
    by (rule fetch_loop_ratelimited [of client s1 b "next_cursor p" e s2 d sl,
          OF c2 assms(3) assms(4) assms(5)])
  also have "\<dots> = Some ((([] @ Request b None # map Yield ms) @ [Request b (next_cursor p), Sleep d])
      @ page_trace b (next_cursor p) ps, Returned)"
    by (rule fetch_loop_pages [OF ps a])
  finally show ?thesis
    using ms by (simp add: fetch_all_users_def the_members_def)
qed

text \<open>
  C4. A call that fails as \<open>ratelimited\<close> with a retry delay \<open>d\<close> that \<open>time.sleep\<close>
  accepts is followed by a suspension of \<open>d\<close> (of 1 when the answer declares none) and by
  the same request again, with the same limit and cursor. With the limit hit on the
  request for the second page, the run is the first page, the failed request, the
  suspension, and then the second and later pages: every record is yielded once, in
  order, and the run returns. A failure that is not a rate limit ends the run with that
  exception, right after the request that failed.
\<close>

theorem rate_limit_retried_other_failures_raised:
  "(client s b c = (RaisesSlackApiError e, s') \<and> error e = Some ''ratelimited'' \<and>
      retry_delay e = Inr d \<and> sl d = None \<longrightarrow>
      fetch_loop sl client b s c tr = fetch_loop sl client b s' c (tr @ [Request b c, Sleep d])) \<and>
   (retry_after_header e = RetryAfter d \<longrightarrow> retry_delay e = Inr d) \<and>
   (retry_after_header e = NoRetryAfter \<longrightarrow> retry_delay e = Inr 1) \<and>
   (paged (p # ps) \<and> ps \<noteq> [] \<and> error e = Some ''ratelimited'' \<and> retry_delay e = Inr d \<and>
      sl d = None \<and>
      answers client s b (None # next_cursor p # next_cursor p # map next_cursor (butlast ps))
        = Returns p # RaisesSlackApiError e # map Returns ps \<longrightarrow>
      fetch_all_users sl client b s =
        Some (page_trace b None [p] @ [Request b (next_cursor p), Sleep d]
                @ page_trace b (next_cursor p) ps, Returned) \<and>
      yields (page_trace b None [p] @ [Request b (next_cursor p), Sleep d]
                @ page_trace b (next_cursor p) ps) = concat (map the_members (p # ps)) \<and>
      sleeps (page_trace b None [p] @ [Request b (next_cursor p), Sleep d]
                @ page_trace b (next_cursor p) ps) = [d]) \<and>
   (client s b c = (RaisesSlackApiError e, s') \<and> error e \<noteq> Some ''ratelimited'' \<longrightarrow>
      fetch_loop sl client b s c tr = Some (tr @ [Request b c], Raised (SlackApiError e))) \<and>
   (client s b c = (RaisesException, s') \<longrightarrow>
      fetch_loop sl client b s c tr = Some (tr @ [Request b c], Raised UnexpectedException))"
proof -
  have 1: "client s b c = (RaisesSlackApiError e, s') \<and> error e = Some ''ratelimited'' \<and>
      retry_delay e = Inr d \<and> sl d = None \<longrightarrow>
      fetch_loop sl client b s c tr = fetch_loop sl client b s' c (tr @ [Request b c, Sleep d])"
    using fetch_loop_ratelimited [of client s b c e s' d sl tr] by blast
  have 2: "retry_after_header e = RetryAfter d \<longrightarrow> retry_delay e = Inr d"
    "retry_after_header e = NoRetryAfter \<longrightarrow> retry_delay e = Inr 1"
    by (simp_all add: retry_delay_def)
  have 3: "yields (page_trace b None [p] @ [Request b (next_cursor p), Sleep d]
                @ page_trace b (next_cursor p) ps) = concat (map the_members (p # ps))"
    "sleeps (page_trace b None [p] @ [Request b (next_cursor p), Sleep d]
                @ page_trace b (next_cursor p) ps) = [d]"
    by (simp_all add: yields_append yields_map_Yield yields_page_trace
        sleeps_append sleeps_map_Yield sleeps_page_trace)
  have 4: "paged (p # ps) \<and> ps \<noteq> [] \<and> error e = Some ''ratelimited'' \<and> retry_delay e = Inr d \<and>
      sl d = None \<and>
      answers client s b (None # next_cursor p # next_cursor p # map next_cursor (butlast ps))
        = Returns p # RaisesSlackApiError e # map Returns ps \<longrightarrow>
      fetch_all_users sl client b s =
        Some (page_trace b None [p] @ [Request b (next_cursor p), Sleep d]
                @ page_trace b (next_cursor p) ps, Returned)"
    using fetch_all_users_rate_limited_second_page [of p ps e d sl client s b] by blast
  have 5: "client s b c = (RaisesSlackApiError e, s') \<and> error e \<noteq> Some ''ratelimited'' \<longrightarrow>
      fetch_loop sl client b s c tr = Some (tr @ [Request b c], Raised (SlackApiError e))"
    using fetch_loop_api_error [of client s b c e s' sl tr] by blast
  have 6: "client s b c = (RaisesException, s') \<longrightarrow>
      fetch_loop sl client b s c tr = Some (tr @ [Request b c], Raised UnexpectedException)"
    using fetch_loop_exception [of client s b c s' sl tr] by blast
  show ?thesis
    using 1 2 3 4 5 6 by blast
qed

theorem rate_limit_retried_other_failures_raised_witness:
  "paged [\<lparr>members = Some [''U1'', ''U2''], response_metadata = Some (Some ''c1'')\<rparr>,
          \<lparr>members = Some [''U3''], response_metadata = Some (Some ''c2'')\<rparr>,
          \<lparr>members = Some [''U4'', ''U5''], response_metadata = Some None\<rparr>] \<and>
   retry_delay \<lparr>error = Some ''ratelimited'', retry_after_header = RetryAfter 30\<rparr> = Inr 30 \<and>
   retry_delay \<lparr>error = Some ''ratelimited'', retry_after_header = NoRetryAfter\<rparr> = Inr 1 \<and>
   plain_sleep 30 = None \<and>
   fetch_all_users plain_sleep scripted 200
     [Returns \<lparr>members = Some [''U1'', ''U2''], response_metadata = Some (Some ''c1'')\<rparr>,
      RaisesSlackApiError \<lparr>error = Some ''ratelimited'', retry_after_header = RetryAfter 30\<rparr>,
      Returns \<lparr>members = Some [''U3''], response_metadata = Some (Some ''c2'')\<rparr>,
      Returns \<lparr>members = Some [''U4'', ''U5''], response_metadata = Some None\<rparr>] =
     Some ([Request 200 None, Yield ''U1'', Yield ''U2'',
            Request 200 (Some ''c1''), Sleep 30,
            Request 200 (Some ''c1''), Yield ''U3'',
            Request 200 (Some ''c2''), Yield ''U4'', Yield ''U5''], Returned) \<and>
   fetch_loop plain_sleep scripted 200
     [RaisesSlackApiError \<lparr>error = Some ''invalid_auth'', retry_after_header = NoRetryAfter\<rparr>,
      Returns \<lparr>members = Some [''U9''], response_metadata = None\<rparr>]
     (Some ''c1'') [Yield ''U1''] =
     Some ([Yield ''U1'', Request 200 (Some ''c1'')],
           Raised (SlackApiError \<lparr>error = Some ''invalid_auth'', retry_after_header = NoRetryAfter\<rparr>)) \<and>
   fetch_loop plain_sleep scripted 200 ([] :: string api_result list) None [] =
     Some ([Request 200 None], Raised UnexpectedException)"
proof -
  let ?p = "\<lparr>members = Some [''U1'', ''U2''], response_metadata = Some (Some ''c1'')\<rparr>"
  let ?ps = "[\<lparr>members = Some [''U3''], response_metadata = Some (Some ''c2'')\<rparr>,
              \<lparr>members = Some [''U4'', ''U5''], response_metadata = Some None\<rparr>]"
  let ?e = "\<lparr>error = Some ''ratelimited'', retry_after_header = RetryAfter 30\<rparr>"
  let ?e1 = "\<lparr>error = Some ''ratelimited'', retry_after_header = NoRetryAfter\<rparr>"
  let ?x = "\<lparr>error = Some ''invalid_auth'', retry_after_header = NoRetryAfter\<rparr>"
  let ?more = "[Returns \<lparr>members = Some [''U9''], response_metadata = None\<rparr>]"
  have a: "paged (?p # ?ps)"
    by (simp add: paged_def falsy_def next_cursor_def)
  have b: "plain_sleep 30 = None"
    by (simp add: plain_sleep_def)
  have c: "answers scripted (Returns ?p # RaisesSlackApiError ?e # map Returns ?ps) 200
      (None # next_cursor ?p # next_cursor ?p # map next_cursor (butlast ?ps))
      = Returns ?p # RaisesSlackApiError ?e # map Returns ?ps"
    by (simp add: next_cursor_def)
  show ?thesis
    using a b c
      rate_limit_retried_other_failures_raised
        [of scripted "Returns ?p # RaisesSlackApiError ?e # map Returns ?ps" 200 None ?e _ 30
            plain_sleep "[]" ?p ?ps]
      rate_limit_retried_other_failures_raised
        [of scripted "RaisesSlackApiError ?x # ?more" 200 "Some ''c1''" ?x ?more _
            plain_sleep "[Yield ''U1'']"]
      rate_limit_retried_other_failures_raised
        [of scripted "[] :: string api_result list" 200 None ?e1 "[]" _ plain_sleep "[]"]
    by (simp add: next_cursor_def the_members_def retry_delay_def)
qed

text \<open>
  C8. A page whose pagination metadata carries the empty text as next cursor ends the
  run like a page without next cursor: its members are yielded and the generator returns,
  with no further request.
\<close>

theorem empty_cursor_ends_pagination:
  "(client s b c = (Returns resp, s') \<and> members resp = Some ms \<and>
      response_metadata resp = Some (Some []) \<longrightarrow>
      fetch_loop sl client b s c tr = Some (tr @ Request b c # map Yield ms, Returned)) \<and>
   (client s b c = (Returns resp, s') \<and> members resp = Some ms \<and>
      (response_metadata resp = None \<or> response_metadata resp = Some None) \<longrightarrow>
      fetch_loop sl client b s c tr = Some (tr @ Request b c # map Yield ms, Returned))"
proof -
  have 1: "response_metadata resp = Some (Some []) \<longrightarrow> falsy (next_cursor resp)"
    by (simp add: falsy_def next_cursor_def)
  have 2: "response_metadata resp = None \<or> response_metadata resp = Some None \<longrightarrow>
      falsy (next_cursor resp)"
    by (auto simp: falsy_def next_cursor_def)
  show ?thesis
    using 1 2 fetch_loop_last_page [of client s b c resp s' ms sl tr] by blast
qed

theorem empty_cursor_ends_pagination_witness:
  "fetch_all_users plain_sleep scripted 200
     [Returns \<lparr>members = Some [''U1'', ''U2''], response_metadata = Some (Some [])\<rparr>,
      Returns \<lparr>members = Some [''U3''], response_metadata = None\<rparr>] =
     Some ([Request 200 None, Yield ''U1'', Yield ''U2''], Returned) \<and>
   fetch_all_users plain_sleep scripted 200
     [Returns \<lparr>members = Some [''U1'', ''U2''], response_metadata = None\<rparr>,
      Returns \<lparr>members = Some [''U3''], response_metadata = None\<rparr>] =
     Some ([Request 200 None, Yield ''U1'', Yield ''U2''], Returned)"
proof -
  let ?more = "[Returns \<lparr>members = Some [''U3''], response_metadata = None\<rparr>]"
  show ?thesis
    using
      empty_cursor_ends_pagination
        [of scripted "Returns \<lparr>members = Some [''U1'', ''U2''], response_metadata = Some (Some [])\<rparr> # ?more"
            200 None "\<lparr>members = Some [''U1'', ''U2''], response_metadata = Some (Some [])\<rparr>" ?more
            "[''U1'', ''U2'']" plain_sleep "[]"]
      empty_cursor_ends_pagination
        [of scripted "Returns \<lparr>members = Some [''U1'', ''U2''], response_metadata = None\<rparr> # ?more"
            200 None "\<lparr>members = Some [''U1'', ''U2''], response_metadata = None\<rparr>" ?more
            "[''U1'', ''U2'']" plain_sleep "[]"]
    by (simp add: fetch_all_users_def)
qed

end
